theory Spec2Isabelle
  imports Complex_Main
begin

section \<open>scripts/optimize\_images.py: the dimension resizer\<close>

text \<open>
  The constants of the script that the batch run reads. \<^verbatim>\<open>HERO_MAX_WIDTH\<close> and
  \<^verbatim>\<open>optimize_hero\<close> are never reached from \<^verbatim>\<open>main\<close> and are left out.
\<close>

definition GALLERY_MAX :: nat where
  "GALLERY_MAX = 900"

definition JPEG_QUALITY :: nat where
  "JPEG_QUALITY = 85"

text \<open>
  \<^verbatim>\<open>int(a / b)\<close> on two non-negative Python ints: \<^verbatim>\<open>/\<close> is true division, the
  result is truncated by \<^verbatim>\<open>int\<close>. The quotient is taken exactly here; Python rounds
  it to the nearest double first, which gives the same integer as long as
  \<open>(a div b + 1) * b < 2 ^ 53\<close>, far beyond the pixel counts of any image together with
  the threshold 900 that the batch run passes. Both call sites divide by a positive
  number (lemma \<open>resize_divisor_pos\<close> below), so \<^verbatim>\<open>ZeroDivisionError\<close> is not a branch.
\<close>

definition int_truediv :: "nat \<Rightarrow> nat \<Rightarrow> nat" where
  "int_truediv a b = a div b"

text \<open>
  The exceptions that the script's own arithmetic and its resampling call can raise.
\<close>

datatype py_error = ZeroDivisionError | ValueError

fun error_text :: "py_error \<Rightarrow> string" where
  "error_text ZeroDivisionError = ''division by zero''"
| "error_text ValueError = ''height and width must be > 0''"

text \<open>
  An image is represented by \<^verbatim>\<open>img.size\<close>, a pair of non-negative integers, the only
  attribute \<^verbatim>\<open>resize_to_max\<close> reads.

  \<^verbatim>\<open>img.resize((new_w, new_h), Image.Resampling.LANCZOS)\<close>: the imaging library refuses a
  requested size with a side below 1 with \<^verbatim>\<open>ValueError\<close>; otherwise it returns an image
  of exactly the requested size.
\<close>

definition img_resize :: "nat \<times> nat \<Rightarrow> py_error + nat \<times> nat" where
  "img_resize sz = (if fst sz < 1 \<or> snd sz < 1 then Inl ValueError else Inr sz)"

text \<open>
  \<^verbatim>\<open>resize_to_max(img, max_size)\<close>: \<^verbatim>\<open>img\<close> itself in the first branch, the result of
  \<^verbatim>\<open>img.resize\<close> otherwise, whose exception is not caught here.
\<close>

fun resize_to_max :: "nat \<times> nat \<Rightarrow> nat \<Rightarrow> py_error + nat \<times> nat" where
  "resize_to_max (w, h) max_size =
     (if w \<le> max_size \<and> h \<le> max_size then Inr (w, h)
      else if w \<ge> h then
        (let new_w = max_size;
             new_h = int_truediv (h * max_size) w
         in img_resize (new_w, new_h))
      else
        (let new_h = max_size;
             new_w = int_truediv (w * max_size) h
         in img_resize (new_w, new_h)))"


section \<open>The files, the imaging library and the console\<close>

text \<open>
  An entry of the image directory: a regular file with its content, or anything else
  (\<^verbatim>\<open>os.path.isfile\<close> is false on a subdirectory). The content type \<open>'c\<close> is left
  open; two contents are equal when the files are byte-for-byte identical.
\<close>

datatype 'c node = File 'c | Other

text \<open>
  What the script calls but does not define:
  \<^item> \<^verbatim>\<open>os.path.getsize\<close>, a non-negative number of bytes;
  \<^item> \<^verbatim>\<open>Image.open(path)\<close> followed by \<^verbatim>\<open>img.convert("RGB")\<close>: the text of the exception
    raised, or the size of the decoded image (the conversion keeps it);
  \<^item> \<^verbatim>\<open>img.save(path, "JPEG", quality=..., optimize=True)\<close> of the image that
    \<open>resize_to_max\<close> returned, given by its size: the exception raised, if any, and the
    content found at the path afterwards (a failed save may leave a damaged file).
  Exceptions are those of class \<^verbatim>\<open>Exception\<close>, the ones the loop catches.
\<close>

record 'c platform =
  getsize :: "'c \<Rightarrow> nat"
  image_open_rgb :: "'c \<Rightarrow> string + nat \<times> nat"
  save_jpeg :: "'c \<Rightarrow> nat \<times> nat \<Rightarrow> nat \<Rightarrow> string option \<times> 'c"

text \<open>
  \<^verbatim>\<open>optimize_jpeg(path)\<close>, on the content at the path: the exception raised, if any, and
  the content at the path afterwards. An exception of \<^verbatim>\<open>resize_to_max\<close> leaves the function
  before the save, with the file as it was.
\<close>

definition optimize_jpeg :: "'c platform \<Rightarrow> 'c \<Rightarrow> string option \<times> 'c" where
  "optimize_jpeg env c =
     (case image_open_rgb env c of
        Inl e \<Rightarrow> (Some e, c)
      | Inr sz \<Rightarrow>
          (case resize_to_max sz GALLERY_MAX of
             Inl err \<Rightarrow> (Some (error_text err), c)
           | Inr sz' \<Rightarrow> save_jpeg env c sz' JPEG_QUALITY))"

text \<open>
  \<^verbatim>\<open>str.lower\<close> and \<^verbatim>\<open>str.endswith\<close>, on file names written in ASCII.
\<close>

definition lower_char :: "char \<Rightarrow> char" where
  "lower_char c =
     (case map_of (zip ''ABCDEFGHIJKLMNOPQRSTUVWXYZ'' ''abcdefghijklmnopqrstuvwxyz'') c of
        Some l \<Rightarrow> l
      | None \<Rightarrow> c)"

definition lower :: "string \<Rightarrow> string" where
  "lower s = map lower_char s"

definition endswith :: "string \<Rightarrow> string \<Rightarrow> bool" where
  "endswith s suffix =
     (length suffix \<le> length s \<and> drop (length s - length suffix) s = suffix)"

text \<open>
  One value per \<^verbatim>\<open>print\<close> call. The two fixed messages are kept as text. The per-file
  line, the skip notice and the summary carry the values their text is formatted from:
  the name and the byte counts before and after (printed as \<^verbatim>\<open>n // 1024\<close> KB, with the
  percentage \<^verbatim>\<open>(1 - after / before) * 100\<close>, a float), or the name and the exception text.
\<close>

datatype line =
    Text string
  | FileLine string nat nat
  | SkipLine string string
  | TotalLine nat nat

fun line_name :: "line \<Rightarrow> string option" where
  "line_name (Text t) = None"
| "line_name (FileLine name b a) = Some name"
| "line_name (SkipLine name e) = Some name"
| "line_name (TotalLine b a) = None"


section \<open>scripts/optimize\_images.py: the batch run\<close>

text \<open>
  The variables of \<^verbatim>\<open>main\<close> while the loop runs, with the directory's entries and the
  lines printed so far.
\<close>

record 'c run_state =
  files :: "string \<rightharpoonup> 'c node"
  printed :: "line list"
  total_before :: nat
  total_after :: nat

text \<open>
  The body of the \<^verbatim>\<open>for\<close> loop for one name. \<^verbatim>\<open>total_before\<close> is increased before the
  name is classified; the two \<^verbatim>\<open>continue\<close> branches leave with that state. The per-file
  percentage has its own guard (\<^verbatim>\<open>if size_before else 0\<close>), so nothing after
  \<^verbatim>\<open>optimize_jpeg\<close> raises.
\<close>

definition process_entry :: "'c platform \<Rightarrow> string \<Rightarrow> 'c run_state \<Rightarrow> 'c run_state" where
  "process_entry env name st =
     (case files st name of
        Some (File c) \<Rightarrow>
          (let size_before = getsize env c;
               st = st\<lparr>total_before := total_before st + size_before\<rparr>;
               low = lower name
           in if low = ''hero-bread.png'' \<or> low = ''hero-bread.jpg'' then st
              else if endswith low ''.jpeg'' \<or> endswith low ''.jpg'' then
                (case optimize_jpeg env c of
                   (Some e, c') \<Rightarrow>
                     st\<lparr>files := (files st)(name \<mapsto> File c'),
                        printed := printed st @ [SkipLine name e]\<rparr>
                 | (None, c') \<Rightarrow>
                     (let size_after = getsize env c'
                      in st\<lparr>files := (files st)(name \<mapsto> File c'),
                            total_after := total_after st + size_after,
                            printed := printed st @ [FileLine name size_before size_after]\<rparr>))
              else st)
      | _ \<Rightarrow> st)"

fun for_each_entry :: "'c platform \<Rightarrow> string list \<Rightarrow> 'c run_state \<Rightarrow> 'c run_state" where
  "for_each_entry env [] st = st"
| "for_each_entry env (name # names) st = for_each_entry env names (process_entry env name st)"

text \<open>
  The directory at \<^verbatim>\<open>IMG_DIR\<close>: the names in the order \<^verbatim>\<open>os.listdir\<close> returns them, and
  the entry under each name. The world a run starts in is \<open>Some\<close> directory, or \<open>None\<close>
  when \<^verbatim>\<open>os.path.isdir(IMG_DIR)\<close> is false.
\<close>

record 'c directory =
  listing :: "string list"
  entries :: "string \<rightharpoonup> 'c node"

record 'c outcome =
  stdout :: "line list"
  img_dir :: "'c directory option"
  raised :: "py_error option"

definition run_loop :: "'c platform \<Rightarrow> string \<Rightarrow> 'c directory \<Rightarrow> 'c run_state" where
  "run_loop env IMG_DIR d =
     for_each_entry env (listing d)
       \<lparr>files = entries d,
        printed = [Text (''Optimizing images in '' @ IMG_DIR @ [CHR 0x0A])],
        total_before = 0, total_after = 0\<rparr>"

text \<open>
  \<^verbatim>\<open>main()\<close>. The summary divides by \<^verbatim>\<open>total_before\<close> outside the \<^verbatim>\<open>try\<close>, with no guard:
  a zero there leaves \<^verbatim>\<open>main\<close> with \<^verbatim>\<open>ZeroDivisionError\<close>.
\<close>

definition main :: "'c platform \<Rightarrow> string \<Rightarrow> 'c directory option \<Rightarrow> 'c outcome" where
  "main env IMG_DIR world =
     (case world of
        None \<Rightarrow>
          \<lparr>stdout = [Text (''No img/ directory found at '' @ IMG_DIR)],
           img_dir = None, raised = None\<rparr>
      | Some d \<Rightarrow>
          (let st = run_loop env IMG_DIR d;
               d' = d\<lparr>entries := files st\<rparr>
           in if total_after st \<noteq> 0 then
                (if total_before st = 0 then
                   \<lparr>stdout = printed st, img_dir = Some d', raised = Some ZeroDivisionError\<rparr>
                 else
                   \<lparr>stdout = printed st @ [TotalLine (total_before st) (total_after st)],
                    img_dir = Some d', raised = None\<rparr>)
              else \<lparr>stdout = printed st, img_dir = Some d', raised = None\<rparr>))"


section \<open>A small platform and directory to run the model on\<close>

text \<open>
  A file is its byte count and, when it decodes as an image, the image's size. An empty
  file does not decode; a saved JPEG has 600 bytes of headers and a quarter byte per pixel.
\<close>

definition demo_platform :: "(nat \<times> (nat \<times> nat) option) platform" where
  "demo_platform =
     \<lparr>getsize = fst,
      image_open_rgb =
        (\<lambda>c. case snd c of
               None \<Rightarrow> Inl ''cannot identify image file''
             | Some sz \<Rightarrow> if fst c = 0 then Inl ''cannot identify image file'' else Inr sz),
      save_jpeg = (\<lambda>c sz q. (None, (600 + fst sz * snd sz div 4, Some sz)))\<rparr>"

definition demo_dir :: "(nat \<times> (nat \<times> nat) option) directory" where
  "demo_dir =
     \<lparr>listing = [''photo1.JPG'', ''hero-bread.png'', ''notes.txt'', ''broken.jpg'', ''sub''],
      entries = [''photo1.JPG'' \<mapsto> File (500000, Some (2000, 1000)),
                 ''hero-bread.png'' \<mapsto> File (800000, Some (1600, 900)),
                 ''notes.txt'' \<mapsto> File (1000, None),
                 ''broken.jpg'' \<mapsto> File (12, None),
                 ''sub'' \<mapsto> Other]\<rparr>"

text \<open>The directory of the scenario: one photograph and the hero image.\<close>

definition scenario_dir :: "(nat \<times> (nat \<times> nat) option) directory" where
  "scenario_dir =
     \<lparr>listing = [''photo1.JPG'', ''hero-bread.png''],
      entries = [''photo1.JPG'' \<mapsto> File (500000, Some (2000, 1000)),
                 ''hero-bread.png'' \<mapsto> File (800000, Some (1600, 900))]\<rparr>"

text \<open>One photograph and a file the run does not recognise.\<close>

definition notes_dir :: "(nat \<times> (nat \<times> nat) option) directory" where
  "notes_dir =
     \<lparr>listing = [''photo1.JPG'', ''notes.txt''],
      entries = [''photo1.JPG'' \<mapsto> File (500000, Some (2000, 1000)),
                 ''notes.txt'' \<mapsto> File (1000, None)]\<rparr>"

text \<open>A valid photograph so thin that its resized height would be 0.\<close>

definition thin_dir :: "(nat \<times> (nat \<times> nat) option) directory" where
  "thin_dir =
     \<lparr>listing = [''rule.jpg''],
      entries = [''rule.jpg'' \<mapsto> File (4000, Some (2000, 1))]\<rparr>"

text \<open>A directory with nothing to transform.\<close>

definition idle_dir :: "(nat \<times> (nat \<times> nat) option) directory" where
  "idle_dir =
     \<lparr>listing = [''hero-bread.png'', ''notes.txt''],
      entries = [''hero-bread.png'' \<mapsto> File (800000, Some (1600, 900)),
                 ''notes.txt'' \<mapsto> File (1000, None)]\<rparr>"

text \<open>
  The invariant of the loop behind the summary: the running \<^verbatim>\<open>total_after\<close> is non-zero
  exactly when a per-file line has been printed, and then \<^verbatim>\<open>total_before\<close> is non-zero.
\<close>

definition summary_inv :: "'c run_state \<Rightarrow> bool" where
  "summary_inv st \<longleftrightarrow>
     (total_after st \<noteq> 0 \<longleftrightarrow> (\<exists>n b a. FileLine n b a \<in> set (printed st)))
     \<and> (total_after st \<noteq> 0 \<longrightarrow> total_before st \<noteq> 0)"


section \<open>Properties of the dimension resizer\<close>

lemma resize_divisor_pos:
  "\<not> (w \<le> max_size \<and> h \<le> max_size) \<Longrightarrow> (h \<le> w \<longrightarrow> 0 < w) \<and> (w < h \<longrightarrow> 0 < h)"
  for w h max_size :: nat
  by auto

lemma truediv_le:
  "a \<le> b \<Longrightarrow> int_truediv (a * m) b \<le> m"
proof (cases "b = 0")
  case True
  then show ?thesis by (simp add: int_truediv_def)
next
  case False
  assume "a \<le> b"
  then have "a * m \<le> m * b" by (simp add: mult.commute)
  then have "(a * m) div b \<le> (m * b) div b" by (rule div_le_mono)
  with False show ?thesis by (simp add: int_truediv_def)
qed

lemma truediv_floor:
  "int (int_truediv a b) = \<lfloor>real a / real b\<rfloor>"
  by (simp add: int_truediv_def floor_divide_of_nat_eq)

lemma truediv_within_one:
  "\<bar>real (int_truediv a b) - real a / real b\<bar> < 1"
proof -
  have "real_of_int \<lfloor>real a / real b\<rfloor> \<le> real a / real b"
    and "real a / real b < real_of_int \<lfloor>real a / real b\<rfloor> + 1"
    by linarith+
  moreover have "real (int_truediv a b) = real_of_int \<lfloor>real a / real b\<rfloor>"
    using truediv_floor [of a b] by (metis of_int_of_nat_eq)
  ultimately show ?thesis by linarith
qed

declare resize_to_max.simps [simp del]

lemma resize_to_max_fits:
  "w \<le> max_size \<Longrightarrow> h \<le> max_size \<Longrightarrow> resize_to_max (w, h) max_size = Inr (w, h)"
  by (simp add: resize_to_max.simps)

lemma img_resize_Inr:
  "img_resize sz = Inr d \<longleftrightarrow> d = sz \<and> 0 < fst sz \<and> 0 < snd sz"
  by (auto simp: img_resize_def)

lemma resize_to_max_wide:
  "\<not> (w \<le> max_size \<and> h \<le> max_size) \<Longrightarrow> h \<le> w \<Longrightarrow>
     resize_to_max (w, h) max_size = img_resize (max_size, int_truediv (h * max_size) w)"
  by (auto simp: resize_to_max.simps Let_def)

lemma resize_to_max_tall:
  "\<not> (w \<le> max_size \<and> h \<le> max_size) \<Longrightarrow> w < h \<Longrightarrow>
     resize_to_max (w, h) max_size = img_resize (int_truediv (w * max_size) h, max_size)"
  by (auto simp: resize_to_max.simps Let_def)

lemma resize_to_max_result_fits:
  assumes "resize_to_max (w, h) max_size = Inr (nw, nh)"
  shows "nw \<le> max_size \<and> nh \<le> max_size"
proof (cases "w \<le> max_size \<and> h \<le> max_size")
  case True
  with assms show ?thesis by (simp add: resize_to_max_fits)
next
  case False
  show ?thesis
  proof (cases "h \<le> w")
    case True
    from assms resize_to_max_wide [OF False True]
    have "nw = max_size" "nh = int_truediv (h * max_size) w"
      by (simp_all add: img_resize_Inr)
    with True show ?thesis by (simp add: truediv_le)
  next
    case tall: False
    from tall have "w < h" by simp
    from assms resize_to_max_tall [OF False this]
    have "nh = max_size" "nw = int_truediv (w * max_size) h"
      by (simp_all add: img_resize_Inr)
    with tall show ?thesis by (simp add: truediv_le)
  qed
qed

text \<open>
  Where the resizer returns a resized image, its longer side is the threshold and its
  other side is within one pixel of the exact aspect-ratio value.
\<close>

lemma resize_to_max_returned_sides:
  assumes "max_size < w \<or> max_size < h"
    and "resize_to_max (w, h) max_size = Inr (nw, nh)"
  shows "max nw nh = max_size
    \<and> (h \<le> w \<longrightarrow> nw = max_size \<and> \<bar>real nh - real h * real max_size / real w\<bar> < 1)
    \<and> (w < h \<longrightarrow> nh = max_size \<and> \<bar>real nw - real w * real max_size / real h\<bar> < 1)"
proof (cases "h \<le> w")
  case True
  from assms(1) have big: "\<not> (w \<le> max_size \<and> h \<le> max_size)" by auto
  from assms(2) resize_to_max_wide [OF big True]
  have r: "nw = max_size" "nh = int_truediv (h * max_size) w"
    by (simp_all add: img_resize_Inr)
  have "int_truediv (h * max_size) w \<le> max_size"
    using True by (rule truediv_le)
  moreover have "\<bar>real (int_truediv (h * max_size) w) - real h * real max_size / real w\<bar> < 1"
    using truediv_within_one [of "h * max_size" w] by simp
  ultimately show ?thesis using True r by simp
next
  case False
  from assms(1) have big: "\<not> (w \<le> max_size \<and> h \<le> max_size)" by auto
  from False have "w < h" by simp
  from assms(2) resize_to_max_tall [OF big this]
  have r: "nh = max_size" "nw = int_truediv (w * max_size) h"
    by (simp_all add: img_resize_Inr)
  have "int_truediv (w * max_size) h \<le> max_size"
    using False by (intro truediv_le) simp
  moreover have "\<bar>real (int_truediv (w * max_size) h) - real w * real max_size / real h\<bar> < 1"
    using truediv_within_one [of "w * max_size" h] by simp
  ultimately show ?thesis using False r by simp
qed

text \<open>
  C3. When both dimensions are at most the threshold, the resizer returns the
  original dimensions unchanged: it never upscales.
\<close>

theorem resize_to_max_fits_unchanged:
  "w \<le> max_size \<Longrightarrow> h \<le> max_size \<Longrightarrow> resize_to_max (w, h) max_size = Inr (w, h)"
  by (rule resize_to_max_fits)

theorem resize_to_max_fits_unchanged_witness:
  "(640::nat) \<le> 900 \<and> (480::nat) \<le> 900 \<and> resize_to_max (640, 480) GALLERY_MAX = Inr (640, 480)"
  using resize_to_max_fits_unchanged [of 640 900 480] by (simp add: GALLERY_MAX_def)

text \<open>
  C4. Resizing twice with the same threshold changes nothing the second time: the
  second application, on the image the first one returned, returns that image's
  dimensions; an exception of the first application is all there is.
\<close>

theorem resize_to_max_idempotent:
  "(case resize_to_max (w, h) max_size of
      Inl e \<Rightarrow> Inl e
    | Inr d \<Rightarrow> resize_to_max d max_size) = resize_to_max (w, h) max_size"
proof (cases "resize_to_max (w, h) max_size")
  case (Inl e)
  then show ?thesis by simp
next
  case (Inr d)
  obtain nw nh where d: "d = (nw, nh)" by (cases d)
  with Inr have "nw \<le> max_size \<and> nh \<le> max_size"
    by (simp add: resize_to_max_result_fits)
  then have "resize_to_max (nw, nh) max_size = Inr (nw, nh)"
    by (simp add: resize_to_max_fits)
  with Inr d show ?thesis by simp
qed

text \<open>
  C2. On a valid image of 2000 by 1 pixels, or of 65535 by 72, with the gallery
  threshold, the shorter side the resizer computes is 0 and the resampling call raises:
  no dimensions are returned, where the longer side should have become 900.
\<close>

theorem resize_to_max_thin_image_raises:
  "resize_to_max (2000, 1) GALLERY_MAX = Inl ValueError
   \<and> resize_to_max (65535, 72) GALLERY_MAX = Inl ValueError"
  by (simp add: resize_to_max.simps GALLERY_MAX_def int_truediv_def img_resize_def)

text \<open>
  In the batch run the exception is caught by the loop: the thin photograph is reported
  as skipped and left as it was.
\<close>

lemma thin_image_is_skipped:
  "stdout (main demo_platform ''/site/img'' (Some thin_dir)) =
     [Text (''Optimizing images in /site/img'' @ [CHR 0x0A]),
      SkipLine ''rule.jpg'' ''height and width must be > 0'']
   \<and> map_option (\<lambda>d. entries d ''rule.jpg'') (img_dir (main demo_platform ''/site/img'' (Some thin_dir)))
       = Some (Some (File (4000, Some (2000, 1))))"
  by (simp add: main_def run_loop_def process_entry_def optimize_jpeg_def demo_platform_def
      lower_def lower_char_def endswith_def GALLERY_MAX_def JPEG_QUALITY_def int_truediv_def
      img_resize_def resize_to_max.simps Let_def thin_dir_def)





section \<open>Properties of the batch run\<close>

lemma process_entry_files_other:
  "m \<noteq> name \<Longrightarrow> files (process_entry env name st) m = files st m"
  by (simp add: process_entry_def Let_def split: option.splits node.splits prod.splits)

lemma process_entry_hero:
  assumes "lower name = ''hero-bread.png'' \<or> lower name = ''hero-bread.jpg''"
  shows "files (process_entry env name st) = files st"
    and "printed (process_entry env name st) = printed st"
  using assms by (auto simp: process_entry_def Let_def split: option.splits node.splits)

lemma process_entry_unrecognised:
  assumes "\<not> endswith (lower name) ''.jpeg''" and "\<not> endswith (lower name) ''.jpg''"
  shows "files (process_entry env name st) = files st"
    and "printed (process_entry env name st) = printed st"
  using assms by (auto simp: process_entry_def Let_def split: option.splits node.splits)

lemma process_entry_printed:
  "l \<in> set (printed (process_entry env name st)) \<Longrightarrow>
     l \<in> set (printed st) \<or> line_name l = Some name"
  by (auto simp: process_entry_def Let_def split: option.splits node.splits prod.splits if_splits)

lemma for_each_entry_files_hero:
  assumes "lower name = ''hero-bread.png'' \<or> lower name = ''hero-bread.jpg''"
  shows "files (for_each_entry env names st) name = files st name"
proof (induction names arbitrary: st)
  case Nil
  show ?case by simp
next
  case (Cons n names)
  have "files (process_entry env n st) name = files st name"
  proof (cases "n = name")
    case True
    with assms show ?thesis by (simp add: process_entry_hero)
  next
    case False
    then show ?thesis by (simp add: process_entry_files_other)
  qed
  with Cons.IH [of "process_entry env n st"] show ?case by simp
qed

lemma for_each_entry_unrecognised:
  assumes "\<not> endswith (lower name) ''.jpeg''" and "\<not> endswith (lower name) ''.jpg''"
  shows "files (for_each_entry env names st) name = files st name
    \<and> (\<forall>l \<in> set (printed (for_each_entry env names st)).
          l \<in> set (printed st) \<or> line_name l \<noteq> Some name)"
proof (induction names arbitrary: st)
  case Nil
  show ?case by simp
next
  case (Cons n names)
  let ?st = "process_entry env n st"
  have f: "files ?st name = files st name"
  proof (cases "n = name")
    case True
    with assms show ?thesis by (simp add: process_entry_unrecognised)
  next
    case False
    then show ?thesis by (simp add: process_entry_files_other)
  qed
  have p: "l \<in> set (printed st) \<or> line_name l \<noteq> Some name" if "l \<in> set (printed ?st)" for l
  proof (cases "n = name")
    case True
    with assms that show ?thesis by (simp add: process_entry_unrecognised)
  next
    case False
    with process_entry_printed [OF that] show ?thesis by auto
  qed
  from Cons.IH [of ?st] f p show ?case by auto
qed

lemma process_entry_totals:
  assumes "total_after st \<noteq> 0 \<longrightarrow> total_before st \<noteq> 0 \<or> (\<exists>n a. FileLine n 0 a \<in> set (printed st))"
  shows "total_after (process_entry env name st) \<noteq> 0 \<longrightarrow>
     total_before (process_entry env name st) \<noteq> 0
     \<or> (\<exists>n a. FileLine n 0 a \<in> set (printed (process_entry env name st)))"
  using assms
  by (auto simp: process_entry_def Let_def split: option.splits node.splits prod.splits)

lemma for_each_entry_totals:
  assumes "total_after st \<noteq> 0 \<longrightarrow> total_before st \<noteq> 0 \<or> (\<exists>n a. FileLine n 0 a \<in> set (printed st))"
  shows "total_after (for_each_entry env names st) \<noteq> 0 \<longrightarrow>
     total_before (for_each_entry env names st) \<noteq> 0
     \<or> (\<exists>n a. FileLine n 0 a \<in> set (printed (for_each_entry env names st)))"
  using assms
proof (induction names arbitrary: st)
  case Nil
  then show ?case by simp
next
  case (Cons n names)
  from Cons.IH [OF process_entry_totals [OF Cons.prems]] show ?case by simp
qed

lemma optimize_jpeg_success:
  assumes opens: "\<forall>c sz. image_open_rgb env c = Inr sz \<longrightarrow> 0 < getsize env c"
    and saves: "\<forall>c sz q c'. save_jpeg env c sz q = (None, c') \<longrightarrow> 0 < getsize env c'"
    and ok: "optimize_jpeg env c = (None, c')"
  shows "0 < getsize env c \<and> 0 < getsize env c'"
proof (cases "image_open_rgb env c")
  case (Inl e)
  with ok show ?thesis by (simp add: optimize_jpeg_def)
next
  case (Inr sz)
  show ?thesis
  proof (cases "resize_to_max sz GALLERY_MAX")
    case (Inl err)
    with ok \<open>image_open_rgb env c = Inr sz\<close> show ?thesis by (simp add: optimize_jpeg_def)
  next
    case resized: (Inr sz')
    with ok Inr have "save_jpeg env c sz' JPEG_QUALITY = (None, c')"
      by (simp add: optimize_jpeg_def)
    with opens Inr saves show ?thesis by blast
  qed
qed

lemma process_entry_summary_inv:
  assumes opens: "\<forall>c sz. image_open_rgb env c = Inr sz \<longrightarrow> 0 < getsize env c"
    and saves: "\<forall>c sz q c'. save_jpeg env c sz q = (None, c') \<longrightarrow> 0 < getsize env c'"
    and inv: "summary_inv st"
  shows "summary_inv (process_entry env name st)"
proof (cases "files st name")
  case None
  with inv show ?thesis by (simp add: process_entry_def)
next
  case (Some nd)
  show ?thesis
  proof (cases nd)
    case Other
    with Some inv show ?thesis by (simp add: process_entry_def)
  next
    case (File c)
    obtain r c' where oj: "optimize_jpeg env c = (r, c')" by (cases "optimize_jpeg env c")
    show ?thesis
    proof (cases r)
      case None
      with oj have "optimize_jpeg env c = (None, c')" by simp
      from optimize_jpeg_success [OF opens saves this]
      have "0 < getsize env c" "0 < getsize env c'" by simp_all
      with Some File oj None inv show ?thesis
        by (auto simp: process_entry_def Let_def summary_inv_def)
    next
      case (Some e)
      with \<open>files st name = Some nd\<close> File oj inv show ?thesis
        by (auto simp: process_entry_def Let_def summary_inv_def)
    qed
  qed
qed

lemma for_each_entry_summary_inv:
  assumes opens: "\<forall>c sz. image_open_rgb env c = Inr sz \<longrightarrow> 0 < getsize env c"
    and saves: "\<forall>c sz q c'. save_jpeg env c sz q = (None, c') \<longrightarrow> 0 < getsize env c'"
  shows "summary_inv st \<Longrightarrow> summary_inv (for_each_entry env names st)"
proof (induction names arbitrary: st)
  case Nil
  then show ?case by simp
next
  case (Cons n names)
  from Cons.IH [OF process_entry_summary_inv [OF opens saves Cons.prems]]
  show ?case by simp
qed

lemmas demo_eval =
  main_def run_loop_def process_entry_def optimize_jpeg_def demo_platform_def
  lower_def lower_char_def endswith_def GALLERY_MAX_def JPEG_QUALITY_def int_truediv_def
  img_resize_def resize_to_max.simps Let_def

text \<open>
  C7. When the image directory does not exist, the run prints one diagnostic line that
  ends with the expected path, touches nothing and returns without raising.
\<close>

theorem main_missing_directory:
  "main env IMG_DIR None =
     \<lparr>stdout = [Text (''No img/ directory found at '' @ IMG_DIR)], img_dir = None, raised = None\<rparr>"
  by (simp add: main_def)

text \<open>
  C5. A file whose lower-cased name is the hero filename, with extension .png or .jpg,
  has the same content after any run as before it.
\<close>

theorem hero_file_never_written:
  assumes "lower name = ''hero-bread.png'' \<or> lower name = ''hero-bread.jpg''"
  shows "map_option (\<lambda>d. entries d name) (img_dir (main env IMG_DIR world))
       = map_option (\<lambda>d. entries d name) world"
proof (cases world)
  case None
  then show ?thesis by (simp add: main_def)
next
  case (Some d)
  have "files (run_loop env IMG_DIR d) name = entries d name"
    by (simp add: run_loop_def for_each_entry_files_hero [OF assms])
  with Some show ?thesis by (simp add: main_def Let_def)
qed

theorem hero_file_never_written_witness:
  "(lower ''hero-bread.png'' = ''hero-bread.png'' \<or> lower ''hero-bread.png'' = ''hero-bread.jpg'')
   \<and> map_option (\<lambda>d. entries d ''hero-bread.png'') (img_dir (main demo_platform ''/site/img'' (Some demo_dir)))
       = Some (Some (File (800000, Some (1600, 900))))"
proof -
  have h: "lower ''hero-bread.png'' = ''hero-bread.png'' \<or> lower ''hero-bread.png'' = ''hero-bread.jpg''"
    by (simp add: lower_def lower_char_def)
  show ?thesis
    using h hero_file_never_written [OF h, of demo_platform "''/site/img''" "Some demo_dir"]
    by (simp add: demo_dir_def)
qed

text \<open>
  C6. A file whose lower-cased name is neither the hero filename nor ends in .jpg or
  .jpeg has the same content after any run as before it, and no per-file line of the
  run carries its name.
\<close>

theorem unrecognised_file_untouched:
  assumes "lower name \<noteq> ''hero-bread.png''" and "lower name \<noteq> ''hero-bread.jpg''"
    and "\<not> endswith (lower name) ''.jpeg''" and "\<not> endswith (lower name) ''.jpg''"
  shows "map_option (\<lambda>d. entries d name) (img_dir (main env IMG_DIR world))
       = map_option (\<lambda>d. entries d name) world
     \<and> (\<forall>l \<in> set (stdout (main env IMG_DIR world)). line_name l \<noteq> Some name)"
proof (cases world)
  case None
  then show ?thesis by (simp add: main_def)
next
  case (Some d)
  let ?st = "run_loop env IMG_DIR d"
  let ?init = "\<lparr>files = entries d,
      printed = [Text (''Optimizing images in '' @ IMG_DIR @ [CHR 0x0A])],
      total_before = 0, total_after = 0\<rparr>"
  note u = for_each_entry_unrecognised [OF assms(3,4), of env "listing d" ?init]
  from u have f: "files ?st name = entries d name"
    by (simp add: run_loop_def)
  from u have p: "\<forall>l \<in> set (printed ?st). line_name l \<noteq> Some name"
    by (auto simp: run_loop_def)
  from Some f p show ?thesis by (simp add: main_def Let_def)
qed

theorem unrecognised_file_untouched_witness:
  "lower ''notes.txt'' \<noteq> ''hero-bread.png'' \<and> lower ''notes.txt'' \<noteq> ''hero-bread.jpg''
   \<and> \<not> endswith (lower ''notes.txt'') ''.jpeg'' \<and> \<not> endswith (lower ''notes.txt'') ''.jpg''
   \<and> map_option (\<lambda>d. entries d ''notes.txt'') (img_dir (main demo_platform ''/site/img'' (Some demo_dir)))
       = Some (Some (File (1000, None)))
   \<and> ''notes.txt'' \<in> set (listing demo_dir)
   \<and> Some ''notes.txt'' \<notin> line_name ` set (stdout (main demo_platform ''/site/img'' (Some demo_dir)))"
proof -
  have h: "lower ''notes.txt'' \<noteq> ''hero-bread.png''" "lower ''notes.txt'' \<noteq> ''hero-bread.jpg''"
    "\<not> endswith (lower ''notes.txt'') ''.jpeg''" "\<not> endswith (lower ''notes.txt'') ''.jpg''"
    by (simp_all add: lower_def lower_char_def endswith_def)
  have "''notes.txt'' \<in> set (listing demo_dir)"
    by (simp add: demo_dir_def)
  then show ?thesis
    using h unrecognised_file_untouched [OF h, of demo_platform "''/site/img''" "Some demo_dir"]
    by (auto simp: demo_dir_def)
qed

text \<open>
  C10. The summary divides by the total before with no guard of its own. If every
  transformed file had a positive size before its transform, then a non-zero total
  after comes with a non-zero total before, and the run does not raise.
\<close>

theorem summary_division_nonzero:
  assumes "\<forall>n b a. FileLine n b a \<in> set (printed (run_loop env IMG_DIR d)) \<longrightarrow> 0 < b"
  shows "(total_after (run_loop env IMG_DIR d) \<noteq> 0 \<longrightarrow> total_before (run_loop env IMG_DIR d) \<noteq> 0)
     \<and> raised (main env IMG_DIR (Some d)) = None"
proof -
  let ?st = "run_loop env IMG_DIR d"
  have "total_after ?st \<noteq> 0 \<longrightarrow>
          total_before ?st \<noteq> 0 \<or> (\<exists>n a. FileLine n 0 a \<in> set (printed ?st))"
    unfolding run_loop_def by (rule for_each_entry_totals) simp
  with assms have nz: "total_after ?st \<noteq> 0 \<longrightarrow> total_before ?st \<noteq> 0"
    by (metis less_numeral_extra(3))
  then show ?thesis by (auto simp: main_def Let_def)
qed

lemma demo_run_state:
  "run_loop demo_platform ''/site/img'' demo_dir =
     \<lparr>files = (entries demo_dir)(''photo1.JPG'' \<mapsto> File (101850, Some (900, 450)),
                                   ''broken.jpg'' \<mapsto> File (12, None)),
      printed = [Text (''Optimizing images in /site/img'' @ [CHR 0x0A]),
                 FileLine ''photo1.JPG'' 500000 101850,
                 SkipLine ''broken.jpg'' ''cannot identify image file''],
      total_before = 1301012, total_after = 101850\<rparr>"
  by (simp add: demo_eval demo_dir_def)

theorem summary_division_nonzero_witness:
  "total_after (run_loop demo_platform ''/site/img'' demo_dir) = 101850
   \<and> total_before (run_loop demo_platform ''/site/img'' demo_dir) \<noteq> 0
   \<and> raised (main demo_platform ''/site/img'' (Some demo_dir)) = None"
proof -
  have h: "\<forall>n b a. FileLine n b a \<in> set (printed (run_loop demo_platform ''/site/img'' demo_dir)) \<longrightarrow> 0 < b"
    by (simp add: demo_run_state)
  have "total_after (run_loop demo_platform ''/site/img'' demo_dir) = 101850"
    by (simp add: demo_run_state)
  with summary_division_nonzero [OF h] show ?thesis by simp
qed

lemma run_loop_summary_inv:
  assumes "\<forall>c sz. image_open_rgb env c = Inr sz \<longrightarrow> 0 < getsize env c"
    and "\<forall>c sz q c'. save_jpeg env c sz q = (None, c') \<longrightarrow> 0 < getsize env c'"
  shows "summary_inv (run_loop env IMG_DIR d)"
  unfolding run_loop_def
  by (rule for_each_entry_summary_inv [OF assms]) (simp add: summary_inv_def)

lemma demo_platform_opens:
  "\<forall>c sz. image_open_rgb demo_platform c = Inr sz \<longrightarrow> 0 < getsize demo_platform c"
  by (auto simp: demo_platform_def split: option.splits if_splits)

lemma demo_platform_saves:
  "\<forall>c sz q c'. save_jpeg demo_platform c sz q = (None, c') \<longrightarrow> 0 < getsize demo_platform c'"
  by (auto simp: demo_platform_def)

text \<open>
  C8. Where the imaging library opens no empty file and writes no empty JPEG, the
  summary line is printed after the loop exactly when a file was transformed (a
  per-file line was printed); otherwise nothing follows the lines of the loop. The run
  does not raise.
\<close>

theorem summary_line_iff_transformed:
  assumes "\<forall>c sz. image_open_rgb env c = Inr sz \<longrightarrow> 0 < getsize env c"
    and "\<forall>c sz q c'. save_jpeg env c sz q = (None, c') \<longrightarrow> 0 < getsize env c'"
  shows "raised (main env IMG_DIR (Some d)) = None
     \<and> stdout (main env IMG_DIR (Some d)) =
         printed (run_loop env IMG_DIR d) @
           (if \<exists>n b a. FileLine n b a \<in> set (printed (run_loop env IMG_DIR d))
            then [TotalLine (total_before (run_loop env IMG_DIR d)) (total_after (run_loop env IMG_DIR d))]
            else [])"
proof -
  let ?st = "run_loop env IMG_DIR d"
  from run_loop_summary_inv [OF assms]
  have iff: "total_after ?st \<noteq> 0 \<longleftrightarrow> (\<exists>n b a. FileLine n b a \<in> set (printed ?st))"
    and nz: "total_after ?st \<noteq> 0 \<longrightarrow> total_before ?st \<noteq> 0"
    by (simp_all add: summary_inv_def)
  show ?thesis
  proof (cases "total_after ?st = 0")
    case True
    with iff have "\<not> (\<exists>n b a. FileLine n b a \<in> set (printed ?st))" by simp
    with True show ?thesis by (simp add: main_def Let_def)
  next
    case False
    with iff have "\<exists>n b a. FileLine n b a \<in> set (printed ?st)" by simp
    moreover from False nz have "total_before ?st \<noteq> 0" by simp
    ultimately show ?thesis using False by (simp add: main_def Let_def)
  qed
qed

lemma idle_run_state:
  "run_loop demo_platform ''/site/img'' idle_dir =
     \<lparr>files = entries idle_dir,
      printed = [Text (''Optimizing images in /site/img'' @ [CHR 0x0A])],
      total_before = 801000, total_after = 0\<rparr>"
  by (simp add: demo_eval idle_dir_def)

theorem summary_line_iff_transformed_witness:
  "stdout (main demo_platform ''/site/img'' (Some demo_dir)) =
       [Text (''Optimizing images in /site/img'' @ [CHR 0x0A]),
        FileLine ''photo1.JPG'' 500000 101850,
        SkipLine ''broken.jpg'' ''cannot identify image file'',
        TotalLine 1301012 101850]
   \<and> raised (main demo_platform ''/site/img'' (Some demo_dir)) = None
   \<and> stdout (main demo_platform ''/site/img'' (Some idle_dir)) =
       [Text (''Optimizing images in /site/img'' @ [CHR 0x0A])]
   \<and> raised (main demo_platform ''/site/img'' (Some idle_dir)) = None"
  using
    summary_line_iff_transformed [OF demo_platform_opens demo_platform_saves, of "''/site/img''" demo_dir]
    summary_line_iff_transformed [OF demo_platform_opens demo_platform_saves, of "''/site/img''" idle_dir]
  by (simp add: demo_run_state idle_run_state)

text \<open>
  C1. Skipped files are counted in the summary's total before, though not in its total
  after. In the scenario directory the photograph is transformed and the hero image is
  skipped, and the summary's total before is 1300000: the 500000 bytes of the
  photograph and the 800000 bytes of the skipped hero image. With a text file of 1000
  bytes beside the photograph, the total before is 501000. In both runs the total
  after, 101850, counts the photograph alone.
\<close>

theorem summary_counts_skipped_files:
  "stdout (main demo_platform ''/site/img'' (Some scenario_dir)) =
     [Text (''Optimizing images in /site/img'' @ [CHR 0x0A]),
      FileLine ''photo1.JPG'' 500000 101850,
      TotalLine 1300000 101850]
   \<and> stdout (main demo_platform ''/site/img'' (Some notes_dir)) =
     [Text (''Optimizing images in /site/img'' @ [CHR 0x0A]),
      FileLine ''photo1.JPG'' 500000 101850,
      TotalLine 501000 101850]"
  by (simp add: demo_eval scenario_dir_def notes_dir_def)

end
